theory Spec2Isabelle
  imports Complex_Main "HOL-Library.Sublist"
begin

section \<open>Strings as the program uses them\<close>

text \<open>
  A Python \<open>str\<close> is modelled as a \<open>string\<close> whose characters stand for the code
  points below 256; text beyond Latin-1 is outside the model. \<open>len\<close> is \<open>length\<close>.
\<close>

definition is_space :: "char \<Rightarrow> bool" where
  \<comment> \<open>\<open>str.isspace\<close> on one code point below 256\<close>
  "is_space c = (let n = (of_char c :: nat) in
     (9 \<le> n \<and> n \<le> 13) \<or> (28 \<le> n \<and> n \<le> 32) \<or> n = 133 \<or> n = 160)"

definition strip :: "string \<Rightarrow> string" where
  \<comment> \<open>\<open>s.strip()\<close>: leading and trailing whitespace removed\<close>
  "strip s = rev (dropWhile is_space (rev (dropWhile is_space s)))"

definition lower_char :: "char \<Rightarrow> char" where
  \<comment> \<open>\<open>str.lower\<close> on one code point below 256: A-Z and the Latin-1 capitals\<close>
  "lower_char c = (let n = (of_char c :: nat) in
     if (65 \<le> n \<and> n \<le> 90) \<or> (192 \<le> n \<and> n \<le> 222 \<and> n \<noteq> 215)
     then char_of (n + 32) else c)"

definition lower :: "string \<Rightarrow> string" where
  "lower s = map lower_char s"

fun str_contains :: "string \<Rightarrow> string \<Rightarrow> bool" where
  \<comment> \<open>\<open>sub in s\<close> on strings, scanning the start positions from the left\<close>
  "str_contains sub [] = (sub = [])"
| "str_contains sub (c # cs) = (prefix sub (c # cs) \<or> str_contains sub cs)"

fun join_space :: "string list \<Rightarrow> string" where
  \<comment> \<open>\<open>" ".join(parts)\<close>\<close>
  "join_space [] = []"
| "join_space [p] = p"
| "join_space (p # q # ps) = p @ '' '' @ join_space (q # ps)"

definition truthy :: "'a list option \<Rightarrow> bool" where
  \<comment> \<open>Python truth value of an optional list: \<open>None\<close> and \<open>[]\<close> are false\<close>
  "truthy l = (case l of None \<Rightarrow> False | Some xs \<Rightarrow> xs \<noteq> [])"

definition entries :: "'a list option \<Rightarrow> 'a list" where
  "entries l = (case l of None \<Rightarrow> [] | Some xs \<Rightarrow> xs)"

section \<open>The domain filter (app.py, \<open>is_domain_allowed\<close>)\<close>

text \<open>
  \<open>urllib.parse.urlparse\<close> belongs to the Python library, not to this program, so the
  filter takes it as the parameter \<open>netloc\<close>: \<open>netloc url = Some h\<close> when
  \<open>urlparse(url).netloc\<close> is \<open>h\<close>, and \<open>None\<close> when \<open>urlparse\<close> raises (the bare
  \<open>except\<close> of the source then returns \<open>False\<close>). The page URL always reaches the filter
  as a string, and the list entries are strings, so no other statement of the \<open>try\<close>
  block can raise.
\<close>

fun any_blocked :: "string list \<Rightarrow> string \<Rightarrow> bool" where
  \<comment> \<open>the \<open>for blocked in blacklist\<close> loop: true when it reaches \<open>return False\<close>\<close>
  "any_blocked [] domain = False"
| "any_blocked (blocked # rest) domain =
     (if str_contains (lower blocked) domain then True else any_blocked rest domain)"

definition is_domain_allowed ::
  "(string \<Rightarrow> string option) \<Rightarrow> string \<Rightarrow> string list option \<Rightarrow> string list option \<Rightarrow> bool" where
  "is_domain_allowed netloc url whitelist blacklist =
     (if url = [] then False
      else case netloc url of
        None \<Rightarrow> False
      | Some host \<Rightarrow>
          (let domain = lower host in
           if truthy blacklist \<and> any_blocked (entries blacklist) domain then False
           else if truthy whitelist
             then list_ex (\<lambda>allowed. str_contains (lower allowed) domain) (entries whitelist)
           else True))"





text \<open>
  The values of \<open>urlparse(u).netloc\<close> at the URLs that the examples below use. URLs
  outside this table are not used with it.
\<close>

definition sample_netloc :: "string \<Rightarrow> string option" where
  "sample_netloc u =
     (if u = ''https://www.Amazon.com/dp/B01'' then Some ''www.Amazon.com''
      else if u = ''https://shop.example.org/item/7'' then Some ''shop.example.org''
      else if u = ''https://www.pinterest.com/pin/99'' then Some ''www.pinterest.com''
      else if u = ''https://amazon.com@evil.example/x'' then Some ''amazon.com@evil.example''
      else if u = ''https://shop.example.org:8080/x'' then Some ''shop.example.org:8080''
      else None)"

section \<open>The image search (app.py, \<open>search_product_images\<close>)\<close>

text \<open>
  The browser is outside the program. One element \<open>a.iusc\<close> of the result page is a
  \<open>candidate\<close>: reading its attribute \<open>m\<close> may raise, the attribute may be missing or
  empty, \<open>json.loads\<close> may raise (as may \<open>data.get\<close> when the JSON is not an object),
  or it decodes to an object whose fields \<open>purl\<close>, \<open>murl\<close> and \<open>turl\<close> are strings
  or absent (\<open>None\<close>: the key is absent or \<open>null\<close>).
  One request is a \<open>fetch\<close>: \<open>driver.get\<close> raises, \<open>find_elements\<close> raises, or the page
  yields its candidates. The \<open>engine\<close> answers the request number \<open>clock\<close> for a search
  string (\<open>quote_plus\<close> is injective, so the search string stands for the request URL).
  The \<open>world\<close> counts the requests and logs what the program does to the outside.
\<close>

datatype candidate =
    Attr_raises
  | No_attr
  | Bad_json
  | Payload (purl: "string option") (murl: "string option") (turl: "string option")

datatype fetch =
    Get_raises string
  | Find_raises string
  | Containers "candidate list"

datatype event =
    Get string         \<comment> \<open>\<open>driver.get(search_url)\<close>\<close>
  | Pause              \<comment> \<open>\<open>time.sleep(2 + random.uniform(0, 1))\<close>\<close>
  | Backoff            \<comment> \<open>\<open>time.sleep(3)\<close>\<close>
  | Warn nat string    \<comment> \<open>\<open>st.warning\<close>: search failed after so many attempts\<close>
  | Checkpoint nat     \<comment> \<open>checkpoint saved at this row number\<close>
  | Row_delay bool     \<comment> \<open>the sleep between rows; \<open>True\<close>: the slower window\<close>

record world =
  clock :: nat
  trace :: "event list"

definition build_search_string :: "string \<Rightarrow> string \<Rightarrow> string \<Rightarrow> string" where
  \<comment> \<open>lines 71 to 81; the arguments in the order of the signature\<close>
  "build_search_string description supplier brand =
     (let search_parts = [];
          search_parts = (if brand \<noteq> [] \<and> strip brand \<noteq> []
                          then search_parts @ [strip brand] else search_parts);
          search_parts = (if supplier \<noteq> [] \<and> strip supplier \<noteq> []
                          then search_parts @ [strip supplier] else search_parts);
          search_parts = (if description \<noteq> [] \<and> strip description \<noteq> []
                          then search_parts @ [strip description] else search_parts);
          search_parts = search_parts @ [''product'']
      in join_space search_parts)"

definition get_or :: "string option \<Rightarrow> string option \<Rightarrow> string option" where
  \<comment> \<open>\<open>data.get('murl') or data.get('turl')\<close>\<close>
  "get_or a b = (case a of Some s \<Rightarrow> (if s \<noteq> [] then Some s else b) | None \<Rightarrow> b)"

fun visit_container ::
  "(string \<Rightarrow> string option) \<Rightarrow> string list option \<Rightarrow> string list option \<Rightarrow>
   candidate \<Rightarrow> string list \<times> string \<Rightarrow> string list \<times> string" where
  \<comment> \<open>the inner \<open>try\<close> of lines 98 to 120, on the pair (image_urls, source_page_url)\<close>
  "visit_container netloc whitelist blacklist (Payload p m t) (image_urls, source_page_url) =
     (let page_url = (case p of None \<Rightarrow> [] | Some u \<Rightarrow> u) in
      if \<not> is_domain_allowed netloc page_url whitelist blacklist
      then (image_urls, source_page_url)
      else (case get_or m t of
              None \<Rightarrow> (image_urls, source_page_url)
            | Some image_url \<Rightarrow>
                if image_url \<noteq> [] \<and> length image_url > 20
                then (image_urls @ [image_url],
                      if source_page_url = [] \<and> page_url \<noteq> [] then page_url
                      else source_page_url)
                else (image_urls, source_page_url)))"
| "visit_container netloc whitelist blacklist Attr_raises acc = acc"
| "visit_container netloc whitelist blacklist No_attr acc = acc"
| "visit_container netloc whitelist blacklist Bad_json acc = acc"

fun scan_containers ::
  "(string \<Rightarrow> string option) \<Rightarrow> nat \<Rightarrow> string list option \<Rightarrow> string list option \<Rightarrow>
   candidate list \<Rightarrow> string list \<times> string \<Rightarrow> string list \<times> string" where
  \<comment> \<open>the \<open>for container in ...\<close> loop with its \<open>break\<close>\<close>
  "scan_containers netloc max_results whitelist blacklist [] acc = acc"
| "scan_containers netloc max_results whitelist blacklist (container # rest) acc =
     (if length (fst acc) \<ge> max_results then acc
      else scan_containers netloc max_results whitelist blacklist rest
             (visit_container netloc whitelist blacklist container acc))"

fun attempt_loop ::
  "(string \<Rightarrow> string option) \<Rightarrow> (string \<Rightarrow> nat \<Rightarrow> fetch) \<Rightarrow> string \<Rightarrow> nat \<Rightarrow> nat \<Rightarrow>
   string list option \<Rightarrow> string list option \<Rightarrow>
   nat list \<Rightarrow> (string list \<times> string) \<times> world \<Rightarrow> (string list \<times> string) \<times> world" where
  \<comment> \<open>\<open>for attempt in range(retry_count)\<close>, lines 83 to 130\<close>
  "attempt_loop netloc engine search_string max_results retry_count whitelist blacklist [] st = st"
| "attempt_loop netloc engine search_string max_results retry_count whitelist blacklist
     (attempt # rest) (acc, w) =
     (let w1 = w\<lparr>clock := clock w + 1, trace := trace w @ [Get search_string]\<rparr>;
          handler = (\<lambda>e wx.
            if int attempt < int retry_count - 1
            then attempt_loop netloc engine search_string max_results retry_count whitelist
                   blacklist rest (acc, wx\<lparr>trace := trace wx @ [Backoff]\<rparr>)
            else attempt_loop netloc engine search_string max_results retry_count whitelist
                   blacklist rest (acc, wx\<lparr>trace := trace wx @ [Warn retry_count e]\<rparr>))
      in case engine search_string (clock w) of
           Get_raises e \<Rightarrow> handler e w1
         | Find_raises e \<Rightarrow> handler e (w1\<lparr>trace := trace w1 @ [Pause]\<rparr>)
         | Containers image_containers \<Rightarrow>
             (let w2 = w1\<lparr>trace := trace w1 @ [Pause]\<rparr>;
                  acc' = scan_containers netloc max_results whitelist blacklist
                           (take (max_results * 3) image_containers) acc
              in if fst acc' \<noteq> [] then (acc', w2)
                 else attempt_loop netloc engine search_string max_results retry_count whitelist
                        blacklist rest (acc', w2)))"

definition search_product_images ::
  "(string \<Rightarrow> string option) \<Rightarrow> (string \<Rightarrow> nat \<Rightarrow> fetch) \<Rightarrow> bool \<Rightarrow>
   string \<Rightarrow> string \<Rightarrow> string \<Rightarrow> nat \<Rightarrow> nat \<Rightarrow> string list option \<Rightarrow> string list option \<Rightarrow>
   world \<Rightarrow> (string list \<times> string) \<times> world" where
  \<comment> \<open>\<open>driver\<close>: whether \<open>get_driver()\<close> gave a driver\<close>
  "search_product_images netloc engine driver description supplier brand max_results retry_count
     whitelist blacklist w =
     (if \<not> driver then (([], []), w)
      else
        (let search_string = build_search_string description supplier brand;
             ((image_urls, source_page_url), w') =
               attempt_loop netloc engine search_string max_results retry_count whitelist
                 blacklist [0..<retry_count] (([], []), w)
         in ((take max_results image_urls, source_page_url), w')))"

section \<open>The row pipeline (app.py, \<open>process_dataframe\<close>)\<close>

text \<open>
  A cell of a sheet is \<open>None\<close> when \<open>pd.notna\<close> is false for it, and \<open>Some s\<close> with
  \<open>s = str(value)\<close> otherwise. A row of a frame maps each column label to its cell, and
  a label that is not a column to \<open>None\<close>. The frame read by \<open>pd.read_excel\<close> has
  distinct column labels and the index labels \<open>0, 1, 2, ...\<close>, so a frame is its list of
  column labels with the list of its rows, and an index label is a position. The results
  frame is kept as the list of its rows; a label chosen twice names one column there.
\<close>

type_synonym cell = "string option"

type_synonym frame_row = "string \<Rightarrow> cell"

record dataframe =
  frame_columns :: "string list"
  frame_rows :: "frame_row list"

record stats_row =
  Product_ID :: cell
  Search_Query :: string
  Source_Domain :: string
  Images_Found :: nat
  Search_Status :: string
  Processed_DateTime :: string

record run_state =
  results_df :: "frame_row list"
  stats_df :: "stats_row list"
  success_count :: nat
  failed_count :: nat
  filtered_count :: nat
  checkpoint_data :: "frame_row list option"
  last_processed_index :: int
  outside :: world

datatype fault = KeyError | ValueError

text \<open>
  What lines 154 to 173 leave: the rows of \<open>df_to_process\<close> with its column labels,
  \<open>selected_cols\<close>, and the labels under which the loop reads supplier and brand.
\<close>

record prepared =
  to_process :: "frame_row list"
  all_columns :: "string list"
  selected_cols :: "string list"
  supplier_label :: string
  brand_label :: string

definition head_rows :: "int \<Rightarrow> 'a list \<Rightarrow> 'a list" where
  \<comment> \<open>\<open>df.head(n)\<close>: the first \<open>n\<close> rows, or all but the last \<open>-n\<close> rows\<close>
  "head_rows n df = (if 0 \<le> n then take (nat n) df else take (length df - nat (- n)) df)"

definition str_cell :: "cell \<Rightarrow> string" where
  \<comment> \<open>\<open>str(x) if pd.notna(x) else ""\<close>\<close>
  "str_cell c = (case c of None \<Rightarrow> [] | Some s \<Rightarrow> s)"

definition col_given :: "string option \<Rightarrow> string \<Rightarrow> bool" where
  \<comment> \<open>\<open>col and col != temp\<close>\<close>
  "col_given col temp = (case col of None \<Rightarrow> False | Some c \<Rightarrow> c \<noteq> [] \<and> c \<noteq> temp)"

definition set_column :: "string \<Rightarrow> cell \<Rightarrow> frame_row list \<Rightarrow> frame_row list" where
  \<comment> \<open>\<open>frame[label] = value\<close>, on the rows\<close>
  "set_column label v frame = map (\<lambda>r. r(label := v)) frame"

definition add_column :: "string \<Rightarrow> string list \<Rightarrow> string list" where
  \<comment> \<open>\<open>frame[label] = value\<close>, on the column labels\<close>
  "add_column label cols = (if label \<in> set cols then cols else cols @ [label])"

definition prepare ::
  "dataframe \<Rightarrow> string \<Rightarrow> string \<Rightarrow> string option \<Rightarrow> string option \<Rightarrow> int \<Rightarrow> prepared" where
  \<comment> \<open>lines 154 to 173\<close>
  "prepare df product_id_col description_col supplier_col brand_col num_rows =
     (let p = \<lparr>to_process = head_rows num_rows (frame_rows df),
                all_columns = frame_columns df,
                selected_cols = [product_id_col, description_col],
                supplier_label = [], brand_label = []\<rparr>;
          p = (case supplier_col of
                 Some c \<Rightarrow>
                   if col_given supplier_col ''_temp_supplier''
                   then p\<lparr>selected_cols := selected_cols p @ [c], supplier_label := c\<rparr>
                   else p\<lparr>to_process := set_column ''_temp_supplier'' (Some []) (to_process p),
                          all_columns := add_column ''_temp_supplier'' (all_columns p),
                          supplier_label := ''_temp_supplier''\<rparr>
               | None \<Rightarrow>
                   p\<lparr>to_process := set_column ''_temp_supplier'' (Some []) (to_process p),
                     all_columns := add_column ''_temp_supplier'' (all_columns p),
                     supplier_label := ''_temp_supplier''\<rparr>);
          p = (case brand_col of
                 Some c \<Rightarrow>
                   if col_given brand_col ''_temp_brand''
                   then p\<lparr>selected_cols := selected_cols p @ [c], brand_label := c\<rparr>
                   else p\<lparr>to_process := set_column ''_temp_brand'' (Some []) (to_process p),
                          all_columns := add_column ''_temp_brand'' (all_columns p),
                          brand_label := ''_temp_brand''\<rparr>
               | None \<Rightarrow>
                   p\<lparr>to_process := set_column ''_temp_brand'' (Some []) (to_process p),
                     all_columns := add_column ''_temp_brand'' (all_columns p),
                     brand_label := ''_temp_brand''\<rparr>)
      in p)"

fun str_nat :: "nat \<Rightarrow> string" where
  \<comment> \<open>the decimal digits of a number, as \<open>f'{i}'\<close> prints it\<close>
  "str_nat n = (if n < 10 then [char_of (48 + n)]
                else str_nat (n div 10) @ [char_of (48 + n mod 10)])"

declare str_nat.simps [simp del]

definition set_image_urls :: "string list \<Rightarrow> frame_row \<Rightarrow> frame_row" where
  \<comment> \<open>\<open>for i, url in enumerate(image_urls, 1): results_df.at[idx, f'Image_URL_{i}'] = url\<close>\<close>
  "set_image_urls image_urls r =
     fold (\<lambda>(i, url) r. r(''Image_URL_'' @ str_nat i := Some url)) (List.enumerate 1 image_urls) r"

definition display_query :: "string \<Rightarrow> string \<Rightarrow> string \<Rightarrow> string" where
  \<comment> \<open>lines 227 and 228, the query built for display\<close>
  "display_query brand supplier description =
     join_space (filter (\<lambda>p. strip p \<noteq> []) [brand, supplier, description])"

definition source_domain_of :: "(string \<Rightarrow> string option) \<Rightarrow> string \<Rightarrow> string" where
  \<comment> \<open>lines 250 to 255\<close>
  "source_domain_of netloc product_url =
     (if product_url \<noteq> [] then (case netloc product_url of None \<Rightarrow> [] | Some d \<Rightarrow> d) else [])"

definition is_series :: "string list \<Rightarrow> string \<Rightarrow> bool" where
  \<comment> \<open>\<open>row[label]\<close> is a Series, not one cell, when the results frame has the label twice\<close>
  "is_series cols label = (1 < count_list cols label)"

text \<open>
  The body of the \<open>for idx, row in results_df.iterrows()\<close> loop. Lines 217 and 218 stand
  outside of the \<open>try\<close>: when the results frame holds the label of the ID column or of
  the description column twice, \<open>row[label]\<close> is a Series, \<open>pd.notna\<close> of it is a Series,
  and taking its truth value raises \<open>ValueError\<close>, which ends the run. The call of line
  232 is the parameter \<open>search\<close>: it returns \<open>Inl msg\<close> when the call raises an exception
  whose text is \<open>msg\<close> (the \<open>except\<close> of line 280 catches it) and
  \<open>Inr (image_urls, product_url)\<close> otherwise. When the label \<open>idx\<close> is absent from one of
  the three frames, where \<open>df_to_process.loc[idx, _]\<close> raises \<open>KeyError\<close> outside of the
  \<open>try\<close> and \<open>.at[idx, _] = v\<close> would add a row, the model stops with \<open>KeyError\<close>;
  otherwise \<open>.at[idx, _] = v\<close> writes in place.
  \<open>stamp idx\<close> is the text of \<open>datetime.now()\<close> at row \<open>idx\<close>. The comparisons with
  \<open>0.3\<close> are taken over the rationals. Progress bars, metrics and messages are not
  modelled.
\<close>

definition process_row ::
  "(string \<Rightarrow> string \<Rightarrow> string \<Rightarrow> string list option \<Rightarrow> string list option \<Rightarrow> world
      \<Rightarrow> (string + string list \<times> string) \<times> world) \<Rightarrow>
   (string \<Rightarrow> string option) \<Rightarrow> (nat \<Rightarrow> string) \<Rightarrow>
   string list option \<Rightarrow> string list option \<Rightarrow> prepared \<Rightarrow> string \<Rightarrow> string \<Rightarrow>
   nat \<Rightarrow> frame_row \<Rightarrow> run_state \<Rightarrow> fault + run_state" where
  "process_row search netloc stamp whitelist blacklist p product_id_col description_col
     idx row s =
     (if \<not> (idx < length (to_process p) \<and> idx < length (results_df s)
              \<and> idx < length (stats_df s))
      then Inl KeyError
      else if is_series (selected_cols p) product_id_col
              \<or> is_series (selected_cols p) description_col
      then Inl ValueError
      else
       (let current_row = idx + 1;
            description = str_cell (row description_col);
            supplier = str_cell ((to_process p ! idx) (supplier_label p));
            brand = str_cell ((to_process p ! idx) (brand_label p));
            search_query = display_query brand supplier description;
            (outcome, w1) = search description supplier brand whitelist blacklist (outside s);
            s1 = (case outcome of
                Inr (image_urls, product_url) \<Rightarrow>
                  (let res1 = set_image_urls image_urls (results_df s ! idx);
                       res2 = (if product_url \<noteq> []
                               then res1(''Product_Page_URL'' := Some product_url)
                               else res1);
                       source_domain = source_domain_of netloc product_url;
                       st1 = (stats_df s ! idx)\<lparr>Search_Query := search_query,
                                Source_Domain := source_domain,
                                Images_Found := length image_urls,
                                Processed_DateTime := stamp idx\<rparr>;
                       s' = s\<lparr>results_df := (results_df s)[idx := res2]\<rparr>
                   in if image_urls \<noteq> []
                      then s'\<lparr>success_count := success_count s + 1,
                              stats_df := (stats_df s)[idx := st1\<lparr>Search_Status := ''Success''\<rparr>]\<rparr>
                      else if truthy whitelist \<or> truthy blacklist
                      then s'\<lparr>filtered_count := filtered_count s + 1,
                              stats_df := (stats_df s)[idx :=
                                st1\<lparr>Search_Status := ''Filtered - No allowed domains''\<rparr>]\<rparr>
                      else s'\<lparr>failed_count := failed_count s + 1,
                              stats_df := (stats_df s)[idx :=
                                st1\<lparr>Search_Status := ''Failed - No images found''\<rparr>]\<rparr>)
              | Inl msg \<Rightarrow>
                  s\<lparr>failed_count := failed_count s + 1,
                    stats_df := (stats_df s)[idx :=
                      (stats_df s ! idx)\<lparr>Search_Status := ''Error: '' @ take 50 msg\<rparr>]\<rparr>);
            (s2, w2) = (if current_row mod 10 = 0
                        then (s1\<lparr>checkpoint_data := Some (results_df s1),
                                  last_processed_index := int idx\<rparr>,
                              w1\<lparr>trace := trace w1 @ [Checkpoint current_row]\<rparr>)
                        else (s1, w1));
            slow = (of_nat (failed_count s2) > (of_nat (success_count s2) :: rat) * (3 / 10))
        in Inr (s2\<lparr>outside := w2\<lparr>trace := trace w2 @ [Row_delay slow]\<rparr>\<rparr>)))"

fun rows_loop ::
  "(nat \<Rightarrow> frame_row \<Rightarrow> run_state \<Rightarrow> fault + run_state) \<Rightarrow>
   (nat \<times> frame_row) list \<Rightarrow> run_state \<Rightarrow> fault + run_state" where
  \<comment> \<open>the loop over \<open>iterrows()\<close>; an exception that leaves the body ends the run\<close>
  "rows_loop body [] s = Inr s"
| "rows_loop body ((idx, row) # rest) s =
     (case body idx row s of Inl e \<Rightarrow> Inl e | Inr s' \<Rightarrow> rows_loop body rest s')"

definition init_result :: "string list \<Rightarrow> frame_row \<Rightarrow> frame_row" where
  \<comment> \<open>lines 176 to 181: the selected columns, then the three empty result columns\<close>
  "init_result cols r =
     (\<lambda>label. if label \<in> set cols then r label else None)
       (''Image_URL_1'' := Some [], ''Image_URL_2'' := Some [], ''Product_Page_URL'' := Some [])"

definition init_stats :: "string \<Rightarrow> frame_row \<Rightarrow> stats_row" where
  \<comment> \<open>lines 184 to 190\<close>
  "init_stats product_id_col r =
     \<lparr>Product_ID = r product_id_col, Search_Query = [], Source_Domain = [], Images_Found = 0,
      Search_Status = [], Processed_DateTime = []\<rparr>"

text \<open>
  \<open>df_to_process[selected_cols]\<close> at line 176 raises \<open>KeyError\<close> when a selected label is
  not a column. \<open>session\<close> is the pair (\<open>checkpoint_data\<close>, \<open>last_processed_index\<close>) that
  \<open>st.session_state\<close> holds on entry: (\<open>None\<close>, \<open>-1\<close>) on a first run.
\<close>

definition process_dataframe ::
  "(string \<Rightarrow> string \<Rightarrow> string \<Rightarrow> string list option \<Rightarrow> string list option \<Rightarrow> world
      \<Rightarrow> (string + string list \<times> string) \<times> world) \<Rightarrow>
   (string \<Rightarrow> string option) \<Rightarrow> (nat \<Rightarrow> string) \<Rightarrow>
   frame_row list option \<times> int \<Rightarrow> world \<Rightarrow>
   dataframe \<Rightarrow> string \<Rightarrow> string \<Rightarrow> string option \<Rightarrow> string option \<Rightarrow> int \<Rightarrow>
   string list option \<Rightarrow> string list option \<Rightarrow>
   fault + frame_row list \<times> stats_row list" where
  "process_dataframe search netloc stamp session w df product_id_col description_col
     supplier_col brand_col num_rows whitelist blacklist =
     (let p = prepare df product_id_col description_col supplier_col brand_col num_rows
      in if \<not> set (selected_cols p) \<subseteq> set (all_columns p) then Inl KeyError
         else
          (let results_df0 = map (init_result (selected_cols p)) (to_process p);
               stats_df0 = map (init_stats product_id_col) (to_process p);
               s0 = \<lparr>results_df = results_df0, stats_df = stats_df0, success_count = 0,
                     failed_count = 0, filtered_count = 0, checkpoint_data = fst session,
                     last_processed_index = snd session, outside = w\<rparr>
           in case rows_loop (process_row search netloc stamp whitelist blacklist p
                                product_id_col description_col)
                     (List.enumerate 0 results_df0) s0 of
                Inl e \<Rightarrow> Inl e
              | Inr s \<Rightarrow> Inr (results_df s, stats_df s)))"

definition call_search ::
  "(string \<Rightarrow> string option) \<Rightarrow> (string \<Rightarrow> nat \<Rightarrow> fetch) \<Rightarrow> bool \<Rightarrow>
   string \<Rightarrow> string \<Rightarrow> string \<Rightarrow> string list option \<Rightarrow> string list option \<Rightarrow> world
     \<Rightarrow> (string + string list \<times> string) \<times> world" where
  \<comment> \<open>the call of lines 232 to 240, with \<open>max_results=2\<close> and \<open>retry_count=2\<close>\<close>
  "call_search netloc engine driver description supplier brand whitelist blacklist w =
     (case search_product_images netloc engine driver description supplier brand 2 2
             whitelist blacklist w of
        (r, w') \<Rightarrow> (Inr r, w'))"

section \<open>The summary sheet (app.py, \<open>create_excel_output\<close>)\<close>

text \<open>
  The summary is the list of its rows, \<open>(Metric, Value)\<close>. The labels of the \<open>Metric\<close>
  column are a datatype, one constructor for each literal of the source and
  \<open>Domain_rank i d\<close> for the text \<open>#i - d\<close>. The values stay unrendered: \<open>Percent\<close> and
  \<open>Share\<close> hold the number that the source prints with one decimal. \<open>value_counts\<close> is
  the pandas method, a parameter: it returns the distinct values with their counts, the
  most frequent first. The comparisons with \<open>0.3\<close> and \<open>0.2\<close> are over the rationals:
  the double nearest to \<open>n * 0.3\<close> or \<open>n * 0.2\<close> lies on the same side of every integer
  as the exact product, for every row count \<open>n\<close> that a sheet can hold.
\<close>

datatype metric =
    Total_Products_Processed
  | Successful_Searches
  | Failed_Searches
  | Filtered_Domain_Rules
  | Errors
  | Success_Rate
  | Blank
  | Top_3_Source_Domains
  | Domain_rank nat string
  | Notable_Findings
  | High_Filter_Rate
  | High_Failure_Rate
  | Source_Diversity
  | Low_Domain_Diversity

datatype summary_value =
    Count nat
  | Percent rat
  | Empty
  | Share nat rat
  | Filtered_note nat        \<comment> \<open>so many products filtered - consider relaxing domain rules\<close>
  | Failed_note nat          \<comment> \<open>so many products failed - check search query quality\<close>
  | Diversity_note nat       \<comment> \<open>so many unique domains found\<close>
  | Bias_note                \<comment> \<open>results concentrated in few sources - may indicate bias\<close>

definition count_status :: "(string \<Rightarrow> bool) \<Rightarrow> stats_row list \<Rightarrow> nat" where
  \<comment> \<open>\<open>(...).sum()\<close> of a boolean column computed from \<open>Search_Status\<close>\<close>
  "count_status p stats = length (filter (\<lambda>r. p (Search_Status r)) stats)"

definition total_success :: "stats_row list \<Rightarrow> nat" where
  "total_success stats = count_status (\<lambda>s. s = ''Success'') stats"

definition total_failed :: "stats_row list \<Rightarrow> nat" where
  "total_failed stats = count_status (str_contains ''Failed'') stats"

definition total_filtered :: "stats_row list \<Rightarrow> nat" where
  "total_filtered stats = count_status (str_contains ''Filtered'') stats"

definition total_errors :: "stats_row list \<Rightarrow> nat" where
  "total_errors stats = count_status (str_contains ''Error'') stats"

definition unique_domains :: "stats_row list \<Rightarrow> nat" where
  \<comment> \<open>\<open>stats_df['Source_Domain'].nunique()\<close>; the empty text counts as a value\<close>
  "unique_domains stats = length (remdups (map Source_Domain stats))"

definition summary_data ::
  "(string list \<Rightarrow> (string \<times> nat) list) \<Rightarrow> stats_row list \<Rightarrow> (metric \<times> summary_value) list" where
  "summary_data value_counts stats =
     (let total_processed = length stats;
          success_rate = (if total_processed > 0
                          then of_nat (total_success stats) / of_nat total_processed * 100
                          else (0 :: rat));
          domain_counts = value_counts (filter (\<lambda>d. d \<noteq> []) (map Source_Domain stats));
          top_3_domains = take 3 domain_counts;
          summary = [(Total_Products_Processed, Count total_processed),
                     (Successful_Searches, Count (total_success stats)),
                     (Failed_Searches, Count (total_failed stats)),
                     (Filtered_Domain_Rules, Count (total_filtered stats)),
                     (Errors, Count (total_errors stats)),
                     (Success_Rate, Percent success_rate),
                     (Blank, Empty),
                     (Top_3_Source_Domains, Empty)];
          summary = summary @
            map (\<lambda>(i, (domain, count)).
                   (Domain_rank i domain,
                    Share count (of_nat count / of_nat total_processed * 100)))
              (List.enumerate 1 top_3_domains);
          summary = summary @ [(Blank, Empty), (Notable_Findings, Empty)];
          summary = (if (of_nat (total_filtered stats) :: rat) > of_nat total_processed * (3 / 10)
                     then summary @ [(High_Filter_Rate, Filtered_note (total_filtered stats))]
                     else summary);
          summary = (if (of_nat (total_failed stats) :: rat) > of_nat total_processed * (2 / 10)
                     then summary @ [(High_Failure_Rate, Failed_note (total_failed stats))]
                     else summary);
          summary = summary @ [(Source_Diversity, Diversity_note (unique_domains stats))];
          summary = (if unique_domains stats < 5 \<and> total_success stats > 10
                     then summary @ [(Low_Domain_Diversity, Bias_note)]
                     else summary)
      in summary)"

section \<open>Notions used in the statements\<close>

subsection \<open>Accepted candidates and failed attempts\<close>

text \<open>
  Names for stating what the search returns. A candidate is \<open>accepted\<close> when its hosting
  page passes the domain filter and its image URL (\<open>murl\<close>, else \<open>turl\<close>) is longer than
  20 characters: lemma \<open>visit_container_eq\<close> shows that these are the candidates that
  the inner \<open>try\<close> appends. A request has \<open>failed\<close> when \<open>driver.get\<close> or
  \<open>find_elements\<close> raised, and \<open>failed_attempt_events\<close> lists what the program does
  to the outside in such an attempt.
\<close>

definition page_url_of :: "candidate \<Rightarrow> string" where
  "page_url_of c = (case c of Payload p m t \<Rightarrow> (case p of None \<Rightarrow> [] | Some u \<Rightarrow> u) | _ \<Rightarrow> [])"

definition image_url_of :: "candidate \<Rightarrow> string option" where
  "image_url_of c = (case c of Payload p m t \<Rightarrow> get_or m t | _ \<Rightarrow> None)"

definition accepted ::
  "(string \<Rightarrow> string option) \<Rightarrow> string list option \<Rightarrow> string list option \<Rightarrow> candidate \<Rightarrow> bool" where
  "accepted netloc whitelist blacklist c =
     (is_domain_allowed netloc (page_url_of c) whitelist blacklist
      \<and> (case image_url_of c of None \<Rightarrow> False | Some u \<Rightarrow> 20 < length u))"

definition image_of :: "candidate \<Rightarrow> string" where
  "image_of c = (case image_url_of c of None \<Rightarrow> [] | Some u \<Rightarrow> u)"

definition failed :: "fetch \<Rightarrow> bool" where
  "failed f = (case f of Containers cs \<Rightarrow> False | _ \<Rightarrow> True)"

definition failed_attempt_events :: "string \<Rightarrow> nat \<Rightarrow> nat \<Rightarrow> fetch \<Rightarrow> event list" where
  "failed_attempt_events q retry_count attempt f =
     (let after = (\<lambda>e. if int attempt < int retry_count - 1 then Backoff else Warn retry_count e)
      in case f of
           Get_raises e \<Rightarrow> [Get q, after e]
         | Find_raises e \<Rightarrow> [Get q, Pause, after e]
         | Containers cs \<Rightarrow> [])"

subsection \<open>What one pass of the loop leaves in its row\<close>

text \<open>
  \<open>filled_result\<close> and \<open>filled_stats\<close> name the two rows that the body of the loop
  writes at \<open>idx\<close>, as functions of the outcome of the search call, and \<open>status_of\<close>
  the text it writes to \<open>Search_Status\<close>; lemma \<open>process_row_effect\<close> derives them from
  \<open>process_row\<close>.
\<close>

definition filled_result :: "(string + string list \<times> string) \<Rightarrow> frame_row \<Rightarrow> frame_row" where
  "filled_result outcome r =
     (case outcome of
        Inl msg \<Rightarrow> r
      | Inr (image_urls, product_url) \<Rightarrow>
          (let r1 = set_image_urls image_urls r
           in if product_url \<noteq> [] then r1(''Product_Page_URL'' := Some product_url) else r1))"

definition status_of ::
  "string list option \<Rightarrow> string list option \<Rightarrow> (string + string list \<times> string) \<Rightarrow> string" where
  "status_of whitelist blacklist outcome =
     (case outcome of
        Inl msg \<Rightarrow> ''Error: '' @ take 50 msg
      | Inr (image_urls, product_url) \<Rightarrow>
          if image_urls \<noteq> [] then ''Success''
          else if truthy whitelist \<or> truthy blacklist then ''Filtered - No allowed domains''
          else ''Failed - No images found'')"

definition filled_stats ::
  "(string \<Rightarrow> string option) \<Rightarrow> (nat \<Rightarrow> string) \<Rightarrow> string list option \<Rightarrow> string list option \<Rightarrow>
   nat \<Rightarrow> string \<Rightarrow> (string + string list \<times> string) \<Rightarrow> stats_row \<Rightarrow> stats_row" where
  "filled_stats netloc stamp whitelist blacklist idx search_query outcome st =
     (case outcome of
        Inl msg \<Rightarrow> st\<lparr>Search_Status := status_of whitelist blacklist outcome\<rparr>
      | Inr (image_urls, product_url) \<Rightarrow>
          st\<lparr>Search_Query := search_query,
             Source_Domain := source_domain_of netloc product_url,
             Images_Found := length image_urls,
             Processed_DateTime := stamp idx,
             Search_Status := status_of whitelist blacklist outcome\<rparr>)"

subsection \<open>The texts of a row, and the runs that reach the end\<close>

text \<open>
  \<open>description_text\<close>, \<open>supplier_text\<close> and \<open>brand_text\<close> are the three texts that
  lines 218, 221 and 222 compute at row \<open>i\<close>: the description from the row of the results
  frame as it is before the loop, supplier and brand from \<open>df_to_process\<close>.
  \<open>runs_through\<close> holds when every selected label is a column and, unless no row is
  selected, neither the ID column nor the description column was selected twice; lemmas
  \<open>process_dataframe_rows\<close> and \<open>process_dataframe_aborts\<close> show that the pipeline
  returns its tables in exactly this case.
\<close>

definition description_text :: "prepared \<Rightarrow> string \<Rightarrow> nat \<Rightarrow> string" where
  "description_text p description_col i =
     str_cell (init_result (selected_cols p) (to_process p ! i) description_col)"

definition supplier_text :: "prepared \<Rightarrow> nat \<Rightarrow> string" where
  "supplier_text p i = str_cell ((to_process p ! i) (supplier_label p))"

definition brand_text :: "prepared \<Rightarrow> nat \<Rightarrow> string" where
  "brand_text p i = str_cell ((to_process p ! i) (brand_label p))"

definition runs_through :: "prepared \<Rightarrow> string \<Rightarrow> string \<Rightarrow> bool" where
  "runs_through p product_id_col description_col =
     (set (selected_cols p) \<subseteq> set (all_columns p)
      \<and> (to_process p = []
         \<or> \<not> (is_series (selected_cols p) product_id_col
               \<or> is_series (selected_cols p) description_col)))"

subsection \<open>Sample data\<close>

text \<open>An engine, a table and a search call for the examples below.\<close>

definition sample_engine :: "string \<Rightarrow> nat \<Rightarrow> fetch" where
  "sample_engine q n =
     (if n = 0 then Get_raises ''timeout''
      else Containers
        [Payload (Some ''https://www.pinterest.com/pin/99'')
           (Some ''https://i.pinimg.com/originals/ab/cd.jpg'') None,
         No_attr,
         Payload (Some ''https://shop.example.org/item/7'') (Some ''short.jpg'') None,
         Payload (Some ''https://www.Amazon.com/dp/B01'') None
           (Some ''https://m.media-amazon.com/images/I/71.jpg''),
         Bad_json,
         Payload (Some ''https://shop.example.org/item/7'')
           (Some ''https://shop.example.org/img/widget-large.png'') None,
         Payload (Some ''https://shop.example.org/item/7'')
           (Some ''https://shop.example.org/img/widget-third.png'') None])"

definition dead_engine :: "string \<Rightarrow> nat \<Rightarrow> fetch" where
  "dead_engine q n = Get_raises ''net::ERR_CONNECTION_REFUSED''"


definition world0 :: world where
  "world0 = \<lparr>clock = 0, trace = []\<rparr>"

definition sample_stamp :: "nat \<Rightarrow> string" where
  "sample_stamp idx = ''2024-01-01 00:00:00''"

definition sample_frame :: dataframe where
  "sample_frame =
     \<lparr>frame_columns = [''ID'', ''Description'', ''Supplier'', ''Brand''],
      frame_rows =
        [(\<lambda>label. None)(''ID'' := Some ''P-1'', ''Description'' := Some ''widget'',
            ''Brand'' := Some ''Acme''),
         (\<lambda>label. None)(''Description'' := Some '' '', ''Supplier'' := Some ''Bolt Ltd'')]\<rparr>"

definition status_rows :: "nat \<Rightarrow> string \<Rightarrow> string \<Rightarrow> stats_row list" where
  "status_rows n status domain =
     replicate n \<lparr>Product_ID = None, Search_Query = [], Source_Domain = domain,
                  Images_Found = 0, Search_Status = status, Processed_DateTime = []\<rparr>"

definition sample_counts :: "string list \<Rightarrow> (string \<times> nat) list" where
  "sample_counts ds =
     sort_key (\<lambda>(d, c). - int c) (map (\<lambda>d. (d, count_list ds d)) (remdups ds))"

section \<open>The domain filter: results\<close>

lemma str_contains_sublist: "str_contains sub s \<longleftrightarrow> sublist sub s"
  by (induction s) (auto simp: sublist_Cons_right)















section \<open>The search string: results\<close>

lemma strip_Nil: "strip [] = []"
  by (simp add: strip_def)

lemma join_space_snoc_nonempty: "p \<noteq> [] \<Longrightarrow> join_space (xs @ [p]) \<noteq> []"
  by (induction xs rule: join_space.induct) auto

text \<open>
  C6. For every brand, supplier and description the search string is the trimmed fields
  that are not empty after trimming, in the order brand, supplier, description, then the
  token \<open>product\<close>, joined by single spaces; the two examples of the specification
  evaluate as stated, and the search string is never empty.
\<close>

theorem build_search_string_spec:
  "build_search_string description supplier brand
     = join_space (filter (\<lambda>p. p \<noteq> []) (map strip [brand, supplier, description]) @ [''product''])
   \<and> build_search_string ''widget'' '''' ''Acme'' = ''Acme widget product''
   \<and> build_search_string '''' '''' '''' = ''product''
   \<and> build_search_string description supplier brand \<noteq> []"
proof -
  have eq: "build_search_string d s b
     = join_space (filter (\<lambda>p. p \<noteq> []) (map strip [b, s, d]) @ [''product''])" for d s b
    by (cases "strip b = []"; cases "strip s = []"; cases "strip d = []")
       (auto simp: build_search_string_def Let_def strip_Nil)
  have ex1: "build_search_string ''widget'' '''' ''Acme'' = ''Acme widget product''"
    by code_simp
  have ex2: "build_search_string '''' '''' '''' = ''product''"
    by code_simp
  have ne: "build_search_string description supplier brand \<noteq> []"
    unfolding eq by (rule join_space_snoc_nonempty) simp
  show ?thesis using eq ex1 ex2 ne by blast
qed

section \<open>The row pipeline: results\<close>

lemma process_row_lengths:
  "process_row search netloc stamp wl bl p pid dcol idx row s = Inr s' \<Longrightarrow>
   length (results_df s') = length (results_df s) \<and> length (stats_df s') = length (stats_df s)"
  unfolding process_row_def Let_def
  by (auto split: if_splits prod.splits sum.splits)

lemma process_row_effect:
  assumes "idx < length (to_process p)" and "idx < length (results_df s)"
    and "idx < length (stats_df s)"
    and "\<not> (is_series (selected_cols p) pid \<or> is_series (selected_cols p) dcol)"
    and "search (str_cell (row dcol)) (str_cell ((to_process p ! idx) (supplier_label p)))
           (str_cell ((to_process p ! idx) (brand_label p))) wl bl (outside s) = (outcome, w1)"
  shows "\<exists>s'. process_row search netloc stamp wl bl p pid dcol idx row s = Inr s'
     \<and> results_df s' = (results_df s)[idx := filled_result outcome (results_df s ! idx)]
     \<and> stats_df s' = (stats_df s)[idx :=
          filled_stats netloc stamp wl bl idx
            (display_query (str_cell ((to_process p ! idx) (brand_label p)))
               (str_cell ((to_process p ! idx) (supplier_label p))) (str_cell (row dcol)))
            outcome (stats_df s ! idx)]"
proof (cases outcome)
  case (Inl msg)
  with assms show ?thesis
    by (simp add: process_row_def Let_def filled_result_def filled_stats_def status_of_def)
next
  case (Inr r)
  obtain image_urls product_url where r: "r = (image_urls, product_url)" by (cases r)
  with Inr assms show ?thesis
    by (simp add: process_row_def Let_def filled_result_def filled_stats_def status_of_def)
qed

lemma process_row_series:
  assumes "idx < length (to_process p)" and "idx < length (results_df s)"
    and "idx < length (stats_df s)"
    and "is_series (selected_cols p) pid \<or> is_series (selected_cols p) dcol"
  shows "process_row search netloc stamp wl bl p pid dcol idx row s = Inl ValueError"
  using assms by (simp add: process_row_def)

lemma rows_loop_enumerate:
  assumes step: "\<And>k s. n \<le> k \<Longrightarrow> k < n + length rows \<Longrightarrow> I k s
                  \<Longrightarrow> \<exists>s'. body k (rows ! (k - n)) s = Inr s' \<and> I (Suc k) s'"
    and start: "I n s0"
  shows "\<exists>s'. rows_loop body (List.enumerate n rows) s0 = Inr s' \<and> I (n + length rows) s'"
  using step start
proof (induction rows arbitrary: n s0)
  case Nil
  then show ?case by simp
next
  case (Cons r rs)
  have "\<exists>s'. body n ((r # rs) ! (n - n)) s0 = Inr s' \<and> I (Suc n) s'"
    by (rule Cons.prems(1)) (use Cons.prems(2) in simp_all)
  then obtain s1 where s1: "body n r s0 = Inr s1" and I1: "I (Suc n) s1" by auto
  have "\<exists>s'. rows_loop body (List.enumerate (Suc n) rs) s1 = Inr s' \<and> I (Suc n + length rs) s'"
  proof (rule Cons.IH [OF _ I1])
    fix k s
    assume k: "Suc n \<le> k" "k < Suc n + length rs" and Ik: "I k s"
    have "\<exists>s'. body k ((r # rs) ! (k - n)) s = Inr s' \<and> I (Suc k) s'"
      by (rule Cons.prems(1)) (use k Ik in simp_all)
    moreover have "(r # rs) ! (k - n) = rs ! (k - Suc n)"
      using k by (simp add: nth_Cons')
    ultimately show "\<exists>s'. body k (rs ! (k - Suc n)) s = Inr s' \<and> I (Suc k) s'" by simp
  qed
  then show ?case using s1 by simp
qed

lemma process_dataframe_rows:
  assumes p: "p = prepare df pid dcol sc bc n"
    and ok: "runs_through p pid dcol"
  shows "\<exists>results stats.
     process_dataframe search netloc stamp session w df pid dcol sc bc n wl bl
       = Inr (results, stats)
     \<and> length results = length (to_process p) \<and> length stats = length (to_process p)
     \<and> (\<forall>i < length (to_process p). \<exists>outcome wa wb.
           search (description_text p dcol i) (supplier_text p i) (brand_text p i) wl bl wa
             = (outcome, wb)
           \<and> results ! i = filled_result outcome (init_result (selected_cols p) (to_process p ! i))
           \<and> stats ! i = filled_stats netloc stamp wl bl i
                 (display_query (brand_text p i) (supplier_text p i) (description_text p dcol i))
                 outcome (init_stats pid (to_process p ! i)))"
proof -
  define res0 where "res0 = map (init_result (selected_cols p)) (to_process p)"
  define st0 where "st0 = map (init_stats pid) (to_process p)"
  define L where "L = length (to_process p)"
  define done_row where "done_row s i \<longleftrightarrow> (\<exists>outcome wa wb.
           search (description_text p dcol i) (supplier_text p i) (brand_text p i) wl bl wa
             = (outcome, wb)
           \<and> results_df s ! i = filled_result outcome (res0 ! i)
           \<and> stats_df s ! i = filled_stats netloc stamp wl bl i
                 (display_query (brand_text p i) (supplier_text p i) (description_text p dcol i))
                 outcome (st0 ! i))" for s :: run_state and i
  define I where "I k s \<longleftrightarrow> length (results_df s) = L \<and> length (stats_df s) = L
       \<and> (\<forall>i < L. if i < k then done_row s i
                    else results_df s ! i = res0 ! i \<and> stats_df s ! i = st0 ! i)"
    for k and s :: run_state
  define s0 where "s0 = \<lparr>results_df = res0, stats_df = st0, success_count = 0,
                failed_count = 0, filtered_count = 0, checkpoint_data = fst session,
                last_processed_index = snd session, outside = w\<rparr>"
  have cols: "set (selected_cols p) \<subseteq> set (all_columns p)"
    using ok by (simp add: runs_through_def)
  have len0: "length res0 = L" "length st0 = L" by (simp_all add: res0_def st0_def L_def)
  have step: "\<exists>s'. process_row search netloc stamp wl bl p pid dcol k (res0 ! (k - 0)) s = Inr s'
                  \<and> I (Suc k) s'"
    if k: "0 \<le> k" "k < 0 + length res0" and Ik: "I k s" for k s
  proof -
    have kL: "k < L" using k len0 by simp
    then have "to_process p \<noteq> []" by (auto simp: L_def)
    then have plain: "\<not> (is_series (selected_cols p) pid \<or> is_series (selected_cols p) dcol)"
      using ok by (simp add: runs_through_def)
    have desc: "str_cell ((res0 ! k) dcol) = description_text p dcol k"
      using kL by (simp add: res0_def L_def description_text_def)
    obtain outcome w1 where call:
      "search (str_cell ((res0 ! k) dcol)) (str_cell ((to_process p ! k) (supplier_label p)))
         (str_cell ((to_process p ! k) (brand_label p))) wl bl (outside s) = (outcome, w1)"
      by (meson surj_pair)
    have lens: "k < length (to_process p)" "k < length (results_df s)" "k < length (stats_df s)"
      using kL Ik by (simp_all add: I_def L_def)
    from process_row_effect [where search = search and row = "res0 ! k" and p = p
        and idx = k and s = s and wl = wl and bl = bl and outcome = outcome and ?w1.0 = w1
        and netloc = netloc and stamp = stamp and pid = pid and dcol = dcol,
        OF lens plain call]
    obtain s' where run: "process_row search netloc stamp wl bl p pid dcol k (res0 ! k) s = Inr s'"
      and r': "results_df s' = (results_df s)[k := filled_result outcome (results_df s ! k)]"
      and t': "stats_df s' = (stats_df s)[k :=
          filled_stats netloc stamp wl bl k
            (display_query (str_cell ((to_process p ! k) (brand_label p)))
               (str_cell ((to_process p ! k) (supplier_label p))) (str_cell ((res0 ! k) dcol)))
            outcome (stats_df s ! k)]"
      by blast
    have cur: "results_df s ! k = res0 ! k" "stats_df s ! k = st0 ! k"
      using Ik kL by (auto simp: I_def)
    have dk: "done_row s' k"
      unfolding done_row_def
      using call r' t' cur lens desc by (auto simp: supplier_text_def brand_text_def)
    have keep: "done_row s' i" if "i < k" "i < L" for i
    proof -
      have "done_row s i" using Ik that by (auto simp: I_def)
      moreover have "results_df s' ! i = results_df s ! i" "stats_df s' ! i = stats_df s ! i"
        using that r' t' by simp_all
      ultimately show ?thesis by (simp add: done_row_def)
    qed
    have rest: "results_df s' ! i = res0 ! i \<and> stats_df s' ! i = st0 ! i"
      if "\<not> i < Suc k" "i < L" for i
    proof -
      have "results_df s ! i = res0 ! i \<and> stats_df s ! i = st0 ! i"
        using Ik that by (auto simp: I_def)
      then show ?thesis using that r' t' by simp
    qed
    have "I (Suc k) s'"
      unfolding I_def
    proof (intro conjI allI impI)
      show "length (results_df s') = L" using r' Ik by (simp add: I_def)
      show "length (stats_df s') = L" using t' Ik by (simp add: I_def)
      fix i assume "i < L"
      then show "if i < Suc k then done_row s' i
                 else results_df s' ! i = res0 ! i \<and> stats_df s' ! i = st0 ! i"
        using dk keep rest by (cases "i < k"; cases "i = k") auto
    qed
    then show ?thesis using run by simp
  qed
  have I0: "I 0 s0" by (simp add: I_def s0_def len0)
  from rows_loop_enumerate [of 0 res0 I "process_row search netloc stamp wl bl p pid dcol",
      OF step I0]
  obtain sf where loop: "rows_loop (process_row search netloc stamp wl bl p pid dcol)
                           (List.enumerate 0 res0) s0 = Inr sf"
    and If: "I (0 + length res0) sf" by blast
  have pd: "process_dataframe search netloc stamp session w df pid dcol sc bc n wl bl
              = Inr (results_df sf, stats_df sf)"
    unfolding process_dataframe_def Let_def
    using loop cols
    by (simp add: p [symmetric] res0_def [symmetric] st0_def [symmetric] s0_def [symmetric])
  have "\<forall>i < length (to_process p). done_row sf i"
    using If len0 by (auto simp: I_def L_def)
  then have "\<forall>i < length (to_process p). \<exists>outcome wa wb.
           search (description_text p dcol i) (supplier_text p i) (brand_text p i) wl bl wa
             = (outcome, wb)
           \<and> results_df sf ! i = filled_result outcome (init_result (selected_cols p) (to_process p ! i))
           \<and> stats_df sf ! i = filled_stats netloc stamp wl bl i
                 (display_query (brand_text p i) (supplier_text p i) (description_text p dcol i))
                 outcome (init_stats pid (to_process p ! i))"
    unfolding done_row_def by (simp add: res0_def st0_def)
  then show ?thesis
    using pd If len0 unfolding I_def L_def by auto
qed

lemma process_dataframe_aborts:
  assumes p: "p = prepare df pid dcol sc bc n"
    and bad: "\<not> runs_through p pid dcol"
  shows "process_dataframe search netloc stamp session w df pid dcol sc bc n wl bl
           = Inl (if set (selected_cols p) \<subseteq> set (all_columns p) then ValueError else KeyError)"
proof (cases "set (selected_cols p) \<subseteq> set (all_columns p)")
  case False
  then show ?thesis
    by (simp add: process_dataframe_def Let_def p [symmetric])
next
  case True
  with bad have ne: "to_process p \<noteq> []"
    and series: "is_series (selected_cols p) pid \<or> is_series (selected_cols p) dcol"
    by (auto simp: runs_through_def)
  from ne obtain r rs where rows: "to_process p = r # rs" by (cases "to_process p") auto
  define s0 where "s0 = \<lparr>results_df = map (init_result (selected_cols p)) (to_process p),
                stats_df = map (init_stats pid) (to_process p), success_count = 0,
                failed_count = 0, filtered_count = 0, checkpoint_data = fst session,
                last_processed_index = snd session, outside = w\<rparr>"
  have first: "process_row search netloc stamp wl bl p pid dcol 0
                 (init_result (selected_cols p) r) s0 = Inl ValueError"
    by (rule process_row_series) (use rows series in \<open>simp_all add: s0_def\<close>)
  have "rows_loop (process_row search netloc stamp wl bl p pid dcol)
          (List.enumerate 0 (map (init_result (selected_cols p)) (to_process p))) s0
        = Inl ValueError"
    using first by (simp add: rows)
  then show ?thesis
    using True
    by (simp add: process_dataframe_def Let_def p [symmetric] s0_def [symmetric])
qed

lemma sample_same_column:
  "\<not> runs_through (prepare sample_frame ''ID'' ''ID'' None None 2) ''ID'' ''ID''
   \<and> set (selected_cols (prepare sample_frame ''ID'' ''ID'' None None 2))
       \<subseteq> set (all_columns (prepare sample_frame ''ID'' ''ID'' None None 2))"
  by code_simp

text \<open>
  C1 fails on the code when one column is chosen both as ID column and as description
  column, as the two select boxes are when left untouched: the results frame then holds
  that label twice, line 217 raises \<open>ValueError\<close> outside of the \<open>try\<close> in the first
  pass of the loop, and the pipeline returns no table. Here two rows of the sample table
  are selected and no row comes back.
\<close>

theorem same_column_aborts:
  "process_dataframe (call_search sample_netloc sample_engine True) sample_netloc sample_stamp
     (None, - 1) world0 sample_frame ''ID'' ''ID'' None None 2 None None = Inl ValueError"
  using process_dataframe_aborts [OF refl, of sample_frame "''ID''" "''ID''" None None 2
      "call_search sample_netloc sample_engine True" sample_netloc sample_stamp "(None, - 1)"
      world0 None None]
    sample_same_column
  by simp

lemma str_nat_slots:
  "str_nat (Suc 0) = ''1''" "str_nat 2 = ''2''" "str_nat (Suc (Suc 0)) = ''2''"
  by code_simp+














lemma set_image_urls_short:
  assumes "length urls \<le> 2"
  shows "set_image_urls urls r ''Image_URL_1''
           = (if 0 < length urls then Some (urls ! 0) else r ''Image_URL_1'')"
    and "set_image_urls urls r ''Image_URL_2''
           = (if 1 < length urls then Some (urls ! 1) else r ''Image_URL_2'')"
    and "set_image_urls urls r ''Product_Page_URL'' = r ''Product_Page_URL''"
proof -
  consider "urls = []" | a where "urls = [a]" | a b where "urls = [a, b]"
    using assms
    by (cases urls; cases "tl urls"; cases "tl (tl urls)") auto
  then have "set_image_urls urls r ''Image_URL_1''
           = (if 0 < length urls then Some (urls ! 0) else r ''Image_URL_1'')
     \<and> set_image_urls urls r ''Image_URL_2''
           = (if 1 < length urls then Some (urls ! 1) else r ''Image_URL_2'')
     \<and> set_image_urls urls r ''Product_Page_URL'' = r ''Product_Page_URL''"
    by cases (simp_all add: set_image_urls_def enumerate_eq_zip str_nat_slots)
  then show "set_image_urls urls r ''Image_URL_1''
           = (if 0 < length urls then Some (urls ! 0) else r ''Image_URL_1'')"
    and "set_image_urls urls r ''Image_URL_2''
           = (if 1 < length urls then Some (urls ! 1) else r ''Image_URL_2'')"
    and "set_image_urls urls r ''Product_Page_URL'' = r ''Product_Page_URL''"
    by simp_all
qed

lemma filled_result_found:
  assumes "length urls \<le> 2"
  shows "filled_result (Inr (urls, src)) (init_result cols row) ''Image_URL_1''
     = Some (if 0 < length urls then urls ! 0 else [])"
    and "filled_result (Inr (urls, src)) (init_result cols row) ''Image_URL_2''
     = Some (if 1 < length urls then urls ! 1 else [])"
    and "filled_result (Inr (urls, src)) (init_result cols row) ''Product_Page_URL'' = Some src"
proof -
  have i: "init_result cols row ''Image_URL_1'' = Some []"
    "init_result cols row ''Image_URL_2'' = Some []"
    "init_result cols row ''Product_Page_URL'' = Some []"
    by (simp_all add: init_result_def)
  have f: "filled_result (Inr (urls, src)) r ''Image_URL_1'' = set_image_urls urls r ''Image_URL_1''"
    "filled_result (Inr (urls, src)) r ''Image_URL_2'' = set_image_urls urls r ''Image_URL_2''"
    "filled_result (Inr (urls, src)) r ''Product_Page_URL''
       = (if src \<noteq> [] then Some src else set_image_urls urls r ''Product_Page_URL'')" for r
    by (simp_all add: filled_result_def Let_def)
  show "filled_result (Inr (urls, src)) (init_result cols row) ''Image_URL_1''
     = Some (if 0 < length urls then urls ! 0 else [])"
    unfolding f set_image_urls_short(1) [OF assms] using i by simp
  show "filled_result (Inr (urls, src)) (init_result cols row) ''Image_URL_2''
     = Some (if 1 < length urls then urls ! 1 else [])"
    unfolding f set_image_urls_short(2) [OF assms] using i by simp
  show "filled_result (Inr (urls, src)) (init_result cols row) ''Product_Page_URL'' = Some src"
    unfolding f set_image_urls_short(3) [OF assms] using i by simp
qed

section \<open>The image search: results\<close>

lemma not_allowed_empty: "\<not> is_domain_allowed netloc [] wl bl"
  by (simp add: is_domain_allowed_def)

lemma accepted_page: "accepted netloc wl bl c \<Longrightarrow> page_url_of c \<noteq> []"
  using not_allowed_empty by (auto simp: accepted_def)

lemma visit_container_eq:
  "visit_container netloc wl bl c (urls, src) =
     (if accepted netloc wl bl c
      then (urls @ [image_of c], if src = [] then page_url_of c else src)
      else (urls, src))"
proof (cases c)
  case (Payload p m t)
  show ?thesis
  proof (cases "is_domain_allowed netloc (case p of None \<Rightarrow> [] | Some u \<Rightarrow> u) wl bl")
    case True
    then have "(case p of None \<Rightarrow> [] | Some u \<Rightarrow> u) \<noteq> []"
      using not_allowed_empty by metis
    with True Payload show ?thesis
      by (cases "get_or m t")
         (auto simp: accepted_def page_url_of_def image_url_of_def image_of_def Let_def)
  next
    case False
    with Payload show ?thesis
      by (simp add: accepted_def page_url_of_def Let_def)
  qed
qed (simp_all add: accepted_def page_url_of_def not_allowed_empty)

lemma scan_containers_eq:
  "scan_containers netloc m wl bl cs (urls, src) =
     (urls @ take (m - length urls) (map image_of (filter (accepted netloc wl bl) cs)),
      if src = [] \<and> length urls < m \<and> filter (accepted netloc wl bl) cs \<noteq> []
      then page_url_of (hd (filter (accepted netloc wl bl) cs)) else src)"
proof (induction cs arbitrary: urls src)
  case Nil
  then show ?case by simp
next
  case (Cons c cs)
  show ?case
  proof (cases "m \<le> length urls")
    case True
    then show ?thesis by simp
  next
    case False
    then have lt: "length urls < m" by simp
    show ?thesis
    proof (cases "accepted netloc wl bl c")
      case True
      have step: "scan_containers netloc m wl bl (c # cs) (urls, src) =
            scan_containers netloc m wl bl cs
              (urls @ [image_of c], if src = [] then page_url_of c else src)"
        using lt True by (simp add: visit_container_eq)
      have ne: "(if src = [] then page_url_of c else src) \<noteq> []"
        using accepted_page [OF True] by simp
      have tk: "take (m - length urls) (image_of c # map image_of (filter (accepted netloc wl bl) cs))
                = image_of c # take (m - Suc (length urls)) (map image_of (filter (accepted netloc wl bl) cs))"
      proof -
        have "m - length urls = Suc (m - Suc (length urls))" using lt by simp
        then show ?thesis by (simp only: take_Suc_Cons)
      qed
      show ?thesis
        unfolding step Cons.IH using True ne tk lt by simp
    next
      case False
      have step: "scan_containers netloc m wl bl (c # cs) (urls, src) =
            scan_containers netloc m wl bl cs (urls, src)"
        using lt False by (simp add: visit_container_eq)
      show ?thesis
        unfolding step Cons.IH using False by simp
    qed
  qed
qed

lemma scan_containers_fresh:
  "scan_containers netloc m wl bl cs ([], []) =
     (take m (map image_of (filter (accepted netloc wl bl) cs)),
      if 0 < m \<and> filter (accepted netloc wl bl) cs \<noteq> []
      then page_url_of (hd (filter (accepted netloc wl bl) cs)) else [])"
  by (simp add: scan_containers_eq)

lemma scan_containers_none:
  assumes "fst (scan_containers netloc m wl bl cs ([], [])) = []"
  shows "scan_containers netloc m wl bl cs ([], []) = ([], [])"
proof -
  from assms have "take m (map image_of (filter (accepted netloc wl bl) cs)) = []"
    by (simp add: scan_containers_fresh)
  then have "m = 0 \<or> filter (accepted netloc wl bl) cs = []" by simp
  then show ?thesis by (auto simp: scan_containers_fresh)
qed

lemma upt_Suc_shift: "[0..<Suc n] = 0 # map Suc [0..<n]"
  by (simp add: upt_conv_Cons map_Suc_upt del: upt_Suc)

lemma attempt_loop_all_failed:
  assumes "\<forall>k < length attempts. failed (engine q (clock w + k))"
  shows "attempt_loop netloc engine q m r wl bl attempts (acc, w) =
     (acc, w\<lparr>clock := clock w + length attempts,
              trace := trace w @ concat (map (\<lambda>k. failed_attempt_events q r (attempts ! k)
                                               (engine q (clock w + k))) [0..<length attempts])\<rparr>)"
  using assms
proof (induction attempts arbitrary: w)
  case Nil
  then show ?case by simp
next
  case (Cons a as)
  define ev where "ev = failed_attempt_events q r a (engine q (clock w))"
  define w1 where "w1 = w\<lparr>clock := clock w + 1, trace := trace w @ ev\<rparr>"
  have f0: "failed (engine q (clock w))" using Cons.prems by auto
  have step: "attempt_loop netloc engine q m r wl bl (a # as) (acc, w) =
              attempt_loop netloc engine q m r wl bl as (acc, w1)"
    using f0 unfolding w1_def ev_def
    by (cases "engine q (clock w)")
       (simp_all add: failed_def failed_attempt_events_def Let_def)
  have rest: "\<forall>k < length as. failed (engine q (clock w1 + k))"
    using Cons.prems by (auto simp: w1_def)
  have shift: "concat (map (\<lambda>k. failed_attempt_events q r ((a # as) ! k) (engine q (clock w + k)))
                   [0..<Suc (length as)])
        = ev @ concat (map (\<lambda>k. failed_attempt_events q r (as ! k) (engine q (clock w1 + k)))
                   [0..<length as])"
    unfolding upt_Suc_shift by (simp add: ev_def w1_def comp_def del: upt_Suc)
  show ?case
    unfolding step Cons.IH [OF rest]
    using shift by (simp add: w1_def del: upt_Suc)
qed

lemma later_attempt:
  assumes "res = ([], [])
     \<or> (\<exists>k cs. k < n \<and> engine q (Suc c + k) = Containers cs \<and> fst res \<noteq> []
           \<and> res = scan_containers netloc m wl bl (take (m * 3) cs) ([], []))"
  shows "res = ([], [])
     \<or> (\<exists>k cs. k < Suc n \<and> engine q (c + k) = Containers cs \<and> fst res \<noteq> []
           \<and> res = scan_containers netloc m wl bl (take (m * 3) cs) ([], []))"
  using assms
proof
  assume "res = ([], [])"
  then show ?thesis by simp
next
  assume "\<exists>k cs. k < n \<and> engine q (Suc c + k) = Containers cs \<and> fst res \<noteq> []
           \<and> res = scan_containers netloc m wl bl (take (m * 3) cs) ([], [])"
  then obtain k cs where "k < n" "engine q (c + Suc k) = Containers cs" "fst res \<noteq> []"
    "res = scan_containers netloc m wl bl (take (m * 3) cs) ([], [])"
    by auto
  then have "Suc k < Suc n \<and> engine q (c + Suc k) = Containers cs \<and> fst res \<noteq> []
           \<and> res = scan_containers netloc m wl bl (take (m * 3) cs) ([], [])"
    by simp
  then show ?thesis by blast
qed

lemma attempt_loop_shape:
  assumes "attempt_loop netloc engine q m r wl bl attempts (([], []), w) = (res, w')"
  shows "clock w' \<le> clock w + length attempts
     \<and> (res = ([], [])
        \<or> (\<exists>k cs. k < length attempts \<and> engine q (clock w + k) = Containers cs
              \<and> fst res \<noteq> []
              \<and> res = scan_containers netloc m wl bl (take (m * 3) cs) ([], [])))"
  using assms
proof (induction attempts arbitrary: w)
  case Nil
  then show ?case by simp
next
  case (Cons a as)
  have later: "clock w' \<le> clock w + length (a # as)
     \<and> (res = ([], [])
        \<or> (\<exists>k cs. k < length (a # as) \<and> engine q (clock w + k) = Containers cs
              \<and> fst res \<noteq> []
              \<and> res = scan_containers netloc m wl bl (take (m * 3) cs) ([], [])))"
    if next_world: "clock w1 = Suc (clock w)"
      and rest: "attempt_loop netloc engine q m r wl bl as (([], []), w1) = (res, w')" for w1
  proof -
    from Cons.IH [OF rest]
    have c: "clock w' \<le> clock w1 + length as"
      and d: "res = ([], [])
          \<or> (\<exists>k cs. k < length as \<and> engine q (Suc (clock w) + k) = Containers cs
              \<and> fst res \<noteq> []
              \<and> res = scan_containers netloc m wl bl (take (m * 3) cs) ([], []))"
      unfolding next_world by blast+
    from later_attempt [where engine = engine and q = q and c = "clock w" and n = "length as",
        OF d] c
    show ?thesis by (simp add: next_world)
  qed
  show ?case
  proof (cases "engine q (clock w)")
    case (Containers cs)
    define acc' where "acc' = scan_containers netloc m wl bl (take (m * 3) cs) ([], [])"
    define w2 where "w2 = w\<lparr>clock := clock w + 1, trace := (trace w @ [Get q]) @ [Pause]\<rparr>"
    show ?thesis
    proof (cases "fst acc' = []")
      case True
      then have e: "acc' = ([], [])"
        unfolding acc'_def by (rule scan_containers_none)
      have "attempt_loop netloc engine q m r wl bl as (([], []), w2) = (res, w')"
        using Cons.prems Containers True e
        by (simp add: Let_def acc'_def [symmetric] w2_def)
      then show ?thesis by (rule later [rotated]) (simp add: w2_def)
    next
      case False
      have "(res, w') = (acc', w2)"
        using Cons.prems Containers False
        by (simp add: Let_def acc'_def [symmetric] w2_def)
      then have "res = acc'" "w' = w2" by simp_all
      moreover have "0 < length (a # as) \<and> engine q (clock w + 0) = Containers cs
              \<and> fst acc' \<noteq> []
              \<and> acc' = scan_containers netloc m wl bl (take (m * 3) cs) ([], [])"
        using False Containers by (simp add: acc'_def)
      ultimately show ?thesis by (auto simp: w2_def)
    qed
  next
    case (Get_raises e)
    define w1 where "w1 = w\<lparr>clock := clock w + 1,
        trace := (trace w @ [Get q]) @ [if int a < int r - 1 then Backoff else Warn r e]\<rparr>"
    have "attempt_loop netloc engine q m r wl bl as (([], []), w1) = (res, w')"
      using Cons.prems Get_raises by (simp add: Let_def w1_def split: if_splits)
    then show ?thesis by (rule later [rotated]) (simp add: w1_def)
  next
    case (Find_raises e)
    define w1 where "w1 = w\<lparr>clock := clock w + 1,
        trace := ((trace w @ [Get q]) @ [Pause]) @ [if int a < int r - 1 then Backoff else Warn r e]\<rparr>"
    have "attempt_loop netloc engine q m r wl bl as (([], []), w1) = (res, w')"
      using Cons.prems Find_raises by (simp add: Let_def w1_def split: if_splits)
    then show ?thesis by (rule later [rotated]) (simp add: w1_def)
  qed
qed

lemma search_product_images_shape:
  assumes "search_product_images netloc engine driver d s b m r wl bl w = ((urls, src), w')"
  shows "clock w' \<le> clock w + r
     \<and> ((urls, src) = ([], [])
        \<or> (\<exists>k cs. k < r \<and> engine (build_search_string d s b) (clock w + k) = Containers cs
              \<and> urls \<noteq> []
              \<and> urls = take m (map image_of (filter (accepted netloc wl bl) (take (m * 3) cs)))
              \<and> src = page_url_of (hd (filter (accepted netloc wl bl) (take (m * 3) cs)))))"
proof (cases driver)
  case False
  with assms show ?thesis by (simp add: search_product_images_def)
next
  case True
  define q where "q = build_search_string d s b"
  obtain res w1 where loop:
    "attempt_loop netloc engine q m r wl bl [0..<r] (([], []), w) = (res, w1)"
    by (meson surj_pair)
  have out: "urls = take m (fst res)" "src = snd res" "w' = w1"
    using assms True loop
    by (simp_all add: search_product_images_def Let_def q_def [symmetric] split: prod.splits)
  from attempt_loop_shape [OF loop]
  have c: "clock w1 \<le> clock w + r"
    and d: "res = ([], [])
        \<or> (\<exists>k cs. k < r \<and> engine q (clock w + k) = Containers cs \<and> fst res \<noteq> []
              \<and> res = scan_containers netloc m wl bl (take (m * 3) cs) ([], []))"
    by simp_all
  from d show ?thesis
  proof
    assume "res = ([], [])"
    with out c show ?thesis by simp
  next
    assume "\<exists>k cs. k < r \<and> engine q (clock w + k) = Containers cs \<and> fst res \<noteq> []
              \<and> res = scan_containers netloc m wl bl (take (m * 3) cs) ([], [])"
    then obtain k cs where k: "k < r" "engine q (clock w + k) = Containers cs"
      and ne: "fst res \<noteq> []"
      and res: "res = scan_containers netloc m wl bl (take (m * 3) cs) ([], [])"
      by blast
    let ?acc = "filter (accepted netloc wl bl) (take (m * 3) cs)"
    have fr: "fst res = take m (map image_of ?acc)"
      by (simp add: res scan_containers_fresh)
    have pos: "0 < m \<and> ?acc \<noteq> []" using ne fr by (cases m) auto
    have sr: "snd res = page_url_of (hd ?acc)"
      using pos by (simp add: res scan_containers_fresh)
    have "urls = take m (map image_of ?acc)" "urls \<noteq> []" "src = page_url_of (hd ?acc)"
      using out fr sr ne by simp_all
    with k c out show ?thesis unfolding q_def by blast
  qed
qed

lemma accepted_image_long: "accepted netloc wl bl c \<Longrightarrow> 20 < length (image_of c)"
  by (auto simp: accepted_def image_of_def split: option.splits)

lemma search_product_images_long:
  assumes "search_product_images netloc engine driver d s b m r wl bl w = ((urls, src), w')"
  shows "\<forall>u \<in> set urls. 20 < length u"
proof
  fix u assume u: "u \<in> set urls"
  then have "(urls, src) \<noteq> ([], [])" by auto
  with search_product_images_shape [OF assms]
  obtain cs where "urls = take m (map image_of (filter (accepted netloc wl bl) (take (m * 3) cs)))"
    by blast
  with u have "u \<in> set (map image_of (filter (accepted netloc wl bl) (take (m * 3) cs)))"
    by (auto dest: in_set_takeD)
  then show "20 < length u" using accepted_image_long by auto
qed

lemma search_product_images_count:
  assumes "search_product_images netloc engine driver d s b m r wl bl w = ((urls, src), w')"
  shows "length urls \<le> m"
  using search_product_images_shape [OF assms] by auto

lemma pipeline_rows_found:
  assumes "runs_through (prepare df product_id_col description_col supplier_col brand_col num_rows)
             product_id_col description_col"
  shows "\<exists>results stats.
     process_dataframe (call_search netloc engine driver) netloc stamp session w df
       product_id_col description_col supplier_col brand_col num_rows whitelist blacklist
       = Inr (results, stats)
     \<and> (\<forall>i < length results. \<exists>urls src wa wb.
           search_product_images netloc engine driver
             (description_text
                (prepare df product_id_col description_col supplier_col brand_col num_rows)
                description_col i)
             (supplier_text
                (prepare df product_id_col description_col supplier_col brand_col num_rows) i)
             (brand_text
                (prepare df product_id_col description_col supplier_col brand_col num_rows) i)
             2 2 whitelist blacklist wa = ((urls, src), wb)
         \<and> (results ! i) ''Image_URL_1'' = Some (if 0 < length urls then urls ! 0 else [])
         \<and> (results ! i) ''Image_URL_2'' = Some (if 1 < length urls then urls ! 1 else [])
         \<and> (results ! i) ''Product_Page_URL'' = Some src)"
proof -
  define p where "p = prepare df product_id_col description_col supplier_col brand_col num_rows"
  have ok: "runs_through p product_id_col description_col" using assms by (simp add: p_def)
  from process_dataframe_rows [OF p_def ok, of "call_search netloc engine driver"
      netloc stamp session w whitelist blacklist]
  obtain results stats where
    run: "process_dataframe (call_search netloc engine driver) netloc stamp session w df
            product_id_col description_col supplier_col brand_col num_rows whitelist blacklist
            = Inr (results, stats)"
    and len: "length results = length (to_process p)"
    and rows: "\<forall>i < length (to_process p). \<exists>outcome wa wb.
           call_search netloc engine driver (description_text p description_col i)
             (supplier_text p i) (brand_text p i) whitelist blacklist wa = (outcome, wb)
           \<and> results ! i = filled_result outcome (init_result (selected_cols p) (to_process p ! i))
           \<and> stats ! i = filled_stats netloc stamp whitelist blacklist i
                 (display_query (brand_text p i) (supplier_text p i)
                    (description_text p description_col i))
                 outcome (init_stats product_id_col (to_process p ! i))"
    by blast
  have "\<exists>urls src wa wb.
           search_product_images netloc engine driver (description_text p description_col i)
             (supplier_text p i) (brand_text p i) 2 2 whitelist blacklist wa = ((urls, src), wb)
         \<and> (results ! i) ''Image_URL_1'' = Some (if 0 < length urls then urls ! 0 else [])
         \<and> (results ! i) ''Image_URL_2'' = Some (if 1 < length urls then urls ! 1 else [])
         \<and> (results ! i) ''Product_Page_URL'' = Some src"
    if i: "i < length results" for i
  proof -
    have ip: "i < length (to_process p)" using i len by simp
    from rows [rule_format, OF ip] obtain outcome wa wb where
      call: "call_search netloc engine driver (description_text p description_col i)
             (supplier_text p i) (brand_text p i) whitelist blacklist wa = (outcome, wb)"
      and r: "results ! i = filled_result outcome (init_result (selected_cols p) (to_process p ! i))"
      by blast
    obtain urls src where s: "search_product_images netloc engine driver
             (description_text p description_col i) (supplier_text p i) (brand_text p i)
             2 2 whitelist blacklist wa = ((urls, src), wb)"
      and o: "outcome = Inr (urls, src)"
      using call by (auto simp: call_search_def split: prod.splits)
    have two: "length urls \<le> 2" using search_product_images_count [OF s] .
    show ?thesis
      using s filled_result_found [OF two, of src] unfolding r o by blast
  qed
  then show ?thesis
    using run unfolding p_def by blast
qed


lemma sample_search:
  "fst (search_product_images sample_netloc sample_engine True ''widget'' [] ''Acme'' 2 2 None
     (Some [''pinterest.com'']) world0)
   = ([''https://m.media-amazon.com/images/I/71.jpg'',
       ''https://shop.example.org/img/widget-large.png''],
      ''https://www.Amazon.com/dp/B01'')"
  by code_simp


text \<open>
  C10. Every image URL returned by a search is longer than 20 characters; so, in a run
  that reaches the end, every value of \<open>Image_URL_1\<close> and \<open>Image_URL_2\<close> in the results
  table is empty or longer than 20 characters; and a candidate whose image URL is missing
  or has at most 20 characters leaves the lists of the search as they were.
\<close>

theorem image_urls_long:
  "(\<forall>urls src w'.
      search_product_images netloc engine driver description supplier brand max_results
        retry_count whitelist blacklist w = ((urls, src), w')
      \<longrightarrow> (\<forall>u \<in> set urls. 20 < length u))
   \<and> (runs_through (prepare df product_id_col description_col supplier_col brand_col num_rows)
         product_id_col description_col
      \<longrightarrow> (\<exists>results stats.
        process_dataframe (call_search netloc engine driver) netloc stamp session w df
          product_id_col description_col supplier_col brand_col num_rows whitelist blacklist
          = Inr (results, stats)
        \<and> (\<forall>i < length results. \<forall>u.
              ((results ! i) ''Image_URL_1'' = Some u \<or> (results ! i) ''Image_URL_2'' = Some u)
              \<longrightarrow> u = [] \<or> 20 < length u)))
   \<and> (\<forall>c acc. (image_url_of c = None \<or> length (image_of c) \<le> 20)
        \<longrightarrow> visit_container netloc whitelist blacklist c acc = acc)"
proof (intro conjI allI impI)
  fix urls src w'
  assume "search_product_images netloc engine driver description supplier brand max_results
        retry_count whitelist blacklist w = ((urls, src), w')"
  then show "\<forall>u \<in> set urls. 20 < length u" by (rule search_product_images_long)
next
  assume ok: "runs_through
      (prepare df product_id_col description_col supplier_col brand_col num_rows)
      product_id_col description_col"
  let ?p = "prepare df product_id_col description_col supplier_col brand_col num_rows"
  from pipeline_rows_found [OF ok, of netloc engine driver stamp session w whitelist blacklist]
  obtain results stats where
    run: "process_dataframe (call_search netloc engine driver) netloc stamp session w df
          product_id_col description_col supplier_col brand_col num_rows whitelist blacklist
          = Inr (results, stats)"
    and rows: "\<forall>i < length results. \<exists>urls src wa wb.
           search_product_images netloc engine driver
             (description_text ?p description_col i) (supplier_text ?p i) (brand_text ?p i)
             2 2 whitelist blacklist wa = ((urls, src), wb)
         \<and> (results ! i) ''Image_URL_1'' = Some (if 0 < length urls then urls ! 0 else [])
         \<and> (results ! i) ''Image_URL_2'' = Some (if 1 < length urls then urls ! 1 else [])
         \<and> (results ! i) ''Product_Page_URL'' = Some src"
    by blast
  have "u = [] \<or> 20 < length u"
    if i: "i < length results"
      and u: "(results ! i) ''Image_URL_1'' = Some u \<or> (results ! i) ''Image_URL_2'' = Some u"
    for i u
  proof -
    from rows [rule_format, OF i] obtain urls src wa wb where
      s: "search_product_images netloc engine driver
             (description_text ?p description_col i) (supplier_text ?p i) (brand_text ?p i)
             2 2 whitelist blacklist wa = ((urls, src), wb)"
      and r1: "(results ! i) ''Image_URL_1'' = Some (if 0 < length urls then urls ! 0 else [])"
      and r2: "(results ! i) ''Image_URL_2'' = Some (if 1 < length urls then urls ! 1 else [])"
      by blast
    have long: "\<forall>x \<in> set urls. 20 < length x" using s by (rule search_product_images_long)
    from u show ?thesis
    proof
      assume "(results ! i) ''Image_URL_1'' = Some u"
      with r1 have "u = (if 0 < length urls then urls ! 0 else [])" by simp
      then show ?thesis using long by (cases "0 < length urls") auto
    next
      assume "(results ! i) ''Image_URL_2'' = Some u"
      with r2 have "u = (if 1 < length urls then urls ! 1 else [])" by simp
      then show ?thesis using long by (cases "1 < length urls") auto
    qed
  qed
  with run show "\<exists>results stats.
        process_dataframe (call_search netloc engine driver) netloc stamp session w df
          product_id_col description_col supplier_col brand_col num_rows whitelist blacklist
          = Inr (results, stats)
        \<and> (\<forall>i < length results. \<forall>u.
              ((results ! i) ''Image_URL_1'' = Some u \<or> (results ! i) ''Image_URL_2'' = Some u)
              \<longrightarrow> u = [] \<or> 20 < length u)"
    by blast
next
  fix c acc
  assume short: "image_url_of c = None \<or> length (image_of c) \<le> 20"
  then have "\<not> accepted netloc whitelist blacklist c"
    by (auto simp: accepted_def image_of_def split: option.splits)
  then show "visit_container netloc whitelist blacklist c acc = acc"
    by (cases acc) (simp add: visit_container_eq)
qed

theorem image_urls_long_witness:
  "20 < length ''https://m.media-amazon.com/images/I/71.jpg''
   \<and> 20 < length ''https://shop.example.org/img/widget-large.png''"
proof -
  obtain w' where run:
    "search_product_images sample_netloc sample_engine True ''widget'' [] ''Acme'' 2 2 None
       (Some [''pinterest.com'']) world0
     = (([''https://m.media-amazon.com/images/I/71.jpg'',
          ''https://shop.example.org/img/widget-large.png''],
         ''https://www.Amazon.com/dp/B01''), w')"
    using sample_search by (metis prod.collapse)
  from image_urls_long [of sample_netloc sample_engine True "''widget''" "[]" "''Acme''"
      2 2 None "Some [''pinterest.com'']" world0 sample_frame "''ID''" "''Description''" None None
      2 sample_stamp "(None, - 1)"]
    run
  have "\<forall>u \<in> set [''https://m.media-amazon.com/images/I/71.jpg'',
              ''https://shop.example.org/img/widget-large.png'']. 20 < length u"
    by blast
  then show ?thesis by simp
qed

lemma search_all_failed:
  assumes "driver"
    and "\<forall>k < r. failed (engine (build_search_string d s b) (clock w + k))"
  shows "search_product_images netloc engine driver d s b m r wl bl w =
     (([], []), w\<lparr>clock := clock w + r,
                  trace := trace w @ concat (map (\<lambda>k. failed_attempt_events
                      (build_search_string d s b) r k
                      (engine (build_search_string d s b) (clock w + k))) [0..<r])\<rparr>)"
proof -
  define q where "q = build_search_string d s b"
  have f: "\<forall>k < length [0..<r]. failed (engine q (clock w + k))"
    using assms(2) by (simp add: q_def)
  have m: "map (\<lambda>k. failed_attempt_events q r ([0..<r] ! k) (engine q (clock w + k))) [0..<r]
         = map (\<lambda>k. failed_attempt_events q r k (engine q (clock w + k))) [0..<r]"
    by (rule map_cong) simp_all
  have "attempt_loop netloc engine q m r wl bl [0..<r] (([], []), w) =
     (([], []), w\<lparr>clock := clock w + r,
              trace := trace w @ concat (map (\<lambda>k. failed_attempt_events q r k
                                               (engine q (clock w + k))) [0..<r])\<rparr>)"
    using attempt_loop_all_failed [where attempts = "[0..<r]" and engine = engine and q = q
        and w = w and netloc = netloc and m = m and r = r and wl = wl and bl = bl
        and acc = "([], [])", OF f] m
    by simp
  then show ?thesis
    using assms(1) by (simp add: search_product_images_def Let_def q_def [symmetric])
qed

text \<open>
  C4. The call of the search from the pipeline always returns a result and never an
  exception; a search makes at most \<open>retry_count\<close> requests; when a driver exists and
  each of the \<open>retry_count\<close> requests fails, the search returns the empty list and the
  empty source page URL after exactly \<open>retry_count\<close> requests, with the fixed backoff
  after each failed request but the last and one warning after the last; without a
  driver it returns the empty result at once; and no answer of the engine stops a run of
  the pipeline that would reach the end.
\<close>

theorem search_never_raises:
  "(\<exists>found w'. call_search netloc engine driver description supplier brand whitelist blacklist w
        = (Inr found, w'))
   \<and> clock (snd (search_product_images netloc engine driver description supplier brand
        max_results retry_count whitelist blacklist w)) \<le> clock w + retry_count
   \<and> (driver \<and> (\<forall>k < retry_count.
          failed (engine (build_search_string description supplier brand) (clock w + k)))
      \<longrightarrow> search_product_images netloc engine driver description supplier brand
            max_results retry_count whitelist blacklist w =
          (([], []), w\<lparr>clock := clock w + retry_count,
             trace := trace w @ concat (map (\<lambda>k. failed_attempt_events
                 (build_search_string description supplier brand) retry_count k
                 (engine (build_search_string description supplier brand) (clock w + k)))
               [0..<retry_count])\<rparr>))
   \<and> (\<not> driver
      \<longrightarrow> search_product_images netloc engine driver description supplier brand
            max_results retry_count whitelist blacklist w = (([], []), w))
   \<and> (runs_through (prepare df product_id_col description_col supplier_col brand_col num_rows)
         product_id_col description_col
      \<longrightarrow> (\<exists>results stats.
        process_dataframe (call_search netloc engine driver) netloc stamp session w df
          product_id_col description_col supplier_col brand_col num_rows whitelist blacklist
          = Inr (results, stats)))"
proof (intro conjI impI)
  show "\<exists>found w'. call_search netloc engine driver description supplier brand whitelist
          blacklist w = (Inr found, w')"
    by (simp add: call_search_def split: prod.split)
  obtain urls src w' where run:
    "search_product_images netloc engine driver description supplier brand
        max_results retry_count whitelist blacklist w = ((urls, src), w')"
    by (metis surj_pair)
  from search_product_images_shape [OF run]
  show "clock (snd (search_product_images netloc engine driver description supplier brand
        max_results retry_count whitelist blacklist w)) \<le> clock w + retry_count"
    by (simp add: run)
  show "search_product_images netloc engine driver description supplier brand
            max_results retry_count whitelist blacklist w =
          (([], []), w\<lparr>clock := clock w + retry_count,
             trace := trace w @ concat (map (\<lambda>k. failed_attempt_events
                 (build_search_string description supplier brand) retry_count k
                 (engine (build_search_string description supplier brand) (clock w + k)))
               [0..<retry_count])\<rparr>)"
    if "driver \<and> (\<forall>k < retry_count.
          failed (engine (build_search_string description supplier brand) (clock w + k)))"
    using that search_all_failed by blast
  show "search_product_images netloc engine driver description supplier brand
            max_results retry_count whitelist blacklist w = (([], []), w)"
    if "\<not> driver"
    using that by (simp add: search_product_images_def)
  show "\<exists>results stats.
        process_dataframe (call_search netloc engine driver) netloc stamp session w df
          product_id_col description_col supplier_col brand_col num_rows whitelist blacklist
          = Inr (results, stats)"
    if ok: "runs_through
      (prepare df product_id_col description_col supplier_col brand_col num_rows)
      product_id_col description_col"
    using pipeline_rows_found [OF ok, of netloc engine driver stamp session w whitelist blacklist]
    by blast
qed

theorem search_never_raises_witness:
  "search_product_images sample_netloc dead_engine True ''widget'' [] ''Acme'' 2 2 None None world0
   = (([], []),
      \<lparr>clock = 2,
       trace = [Get ''Acme widget product'', Backoff, Get ''Acme widget product'',
                Warn 2 ''net::ERR_CONNECTION_REFUSED'']\<rparr>)"
proof -
  have q: "build_search_string ''widget'' [] ''Acme'' = ''Acme widget product''"
    by code_simp
  have dead: "\<forall>k < 2. failed (dead_engine (build_search_string ''widget'' [] ''Acme'') (clock world0 + k))"
    by (simp add: failed_def dead_engine_def)
  have up: "[0..<2] = [0, Suc 0]"
    by (simp add: upt_conv_Cons)
  from search_never_raises [of sample_netloc dead_engine True "''widget''" "[]" "''Acme''" None None
      world0 2 2 sample_frame "''ID''" "''Description''" None None 2 sample_stamp "(None, - 1)"]
    dead
  have "search_product_images sample_netloc dead_engine True ''widget'' [] ''Acme'' 2 2 None None world0
    = (([], []), world0\<lparr>clock := clock world0 + 2,
             trace := trace world0 @ concat (map (\<lambda>k. failed_attempt_events
                 (build_search_string ''widget'' [] ''Acme'') 2 k
                 (dead_engine (build_search_string ''widget'' [] ''Acme'') (clock world0 + k)))
               [0..<2])\<rparr>)"
    by blast
  then show ?thesis
    by (simp add: q up world0_def dead_engine_def failed_attempt_events_def)
qed

section \<open>The summary sheet: results\<close>

lemma count_status_sublist:
  "total_filtered stats = length (filter (\<lambda>r. sublist ''Filtered'' (Search_Status r)) stats)"
  "total_failed stats = length (filter (\<lambda>r. sublist ''Failed'' (Search_Status r)) stats)"
  by (simp_all add: total_filtered_def total_failed_def count_status_def str_contains_sublist)

lemma unique_domains_card: "unique_domains stats = card (Source_Domain ` set stats)"
  by (simp add: unique_domains_def length_remdups_card_conv)

lemma rate_threshold:
  "((of_nat a :: rat) > of_nat n * (3 / 10)) \<longleftrightarrow> 3 * n < 10 * a"
  "((of_nat a :: rat) > of_nat n * (2 / 10)) \<longleftrightarrow> 2 * n < 10 * a"
proof -
  have "((of_nat a :: rat) > of_nat n * (3 / 10)) \<longleftrightarrow> (of_nat (3 * n) :: rat) < of_nat (10 * a)"
    by (simp add: field_simps)
  then show "((of_nat a :: rat) > of_nat n * (3 / 10)) \<longleftrightarrow> 3 * n < 10 * a"
    by (simp only: of_nat_less_iff)
  have "((of_nat a :: rat) > of_nat n * (2 / 10)) \<longleftrightarrow> (of_nat (2 * n) :: rat) < of_nat (10 * a)"
    by (simp add: field_simps)
  then show "((of_nat a :: rat) > of_nat n * (2 / 10)) \<longleftrightarrow> 2 * n < 10 * a"
    by (simp only: of_nat_less_iff)
qed

lemma rank_lines_plain:
  "High_Filter_Rate \<notin> fst ` set (map (\<lambda>(i, (domain, count)). (Domain_rank i domain, f i domain count)) xs)"
  "High_Failure_Rate \<notin> fst ` set (map (\<lambda>(i, (domain, count)). (Domain_rank i domain, f i domain count)) xs)"
  "Low_Domain_Diversity \<notin> fst ` set (map (\<lambda>(i, (domain, count)). (Domain_rank i domain, f i domain count)) xs)"
  by (auto simp: image_iff)

lemma summary_metrics:
  "fst ` set (summary_data value_counts stats) =
     {Total_Products_Processed, Successful_Searches, Failed_Searches, Filtered_Domain_Rules,
      Errors, Success_Rate, Blank, Top_3_Source_Domains, Notable_Findings, Source_Diversity}
     \<union> fst ` set (map (\<lambda>(i, (domain, count)).
                   (Domain_rank i domain,
                    Share count (of_nat count / of_nat (length stats) * 100)))
              (List.enumerate 1 (take 3 (value_counts (filter (\<lambda>d. d \<noteq> []) (map Source_Domain stats))))))
     \<union> (if 3 * length stats < 10 * total_filtered stats then {High_Filter_Rate} else {})
     \<union> (if 2 * length stats < 10 * total_failed stats then {High_Failure_Rate} else {})
     \<union> (if unique_domains stats < 5 \<and> total_success stats > 10 then {Low_Domain_Diversity} else {})"
  unfolding summary_data_def Let_def rate_threshold
  by (simp add: image_Un Un_ac insert_commute)

text \<open>
  C8. For every statistics table and every ranking of the domains, the summary holds
  the high filter rate line exactly when the rows whose status contains \<open>Filtered\<close> are
  more than 30 percent of all rows (\<open>3 * total < 10 * filtered\<close>), the high failure rate
  line exactly when the rows whose status contains \<open>Failed\<close> are more than 20 percent
  of all rows, and the low domain diversity line exactly when there are fewer than 5
  distinct values of \<open>Source_Domain\<close> and more than 10 rows with status \<open>Success\<close>.
\<close>

theorem summary_advisories:
  "(High_Filter_Rate \<in> fst ` set (summary_data value_counts stats)
      \<longleftrightarrow> 3 * length stats
            < 10 * length (filter (\<lambda>r. sublist ''Filtered'' (Search_Status r)) stats))
   \<and> (High_Failure_Rate \<in> fst ` set (summary_data value_counts stats)
      \<longleftrightarrow> 2 * length stats
            < 10 * length (filter (\<lambda>r. sublist ''Failed'' (Search_Status r)) stats))
   \<and> (Low_Domain_Diversity \<in> fst ` set (summary_data value_counts stats)
      \<longleftrightarrow> card (Source_Domain ` set stats) < 5
          \<and> 10 < length (filter (\<lambda>r. Search_Status r = ''Success'') stats))"
proof -
  let ?ranks = "map (\<lambda>(i, (domain, count)).
                   (Domain_rank i domain,
                    Share count (of_nat count / of_nat (length stats) * 100)))
              (List.enumerate 1 (take 3 (value_counts (filter (\<lambda>d. d \<noteq> []) (map Source_Domain stats)))))"
  have r: "High_Filter_Rate \<notin> fst ` set ?ranks" "High_Failure_Rate \<notin> fst ` set ?ranks"
    "Low_Domain_Diversity \<notin> fst ` set ?ranks"
    by (rule rank_lines_plain)+
  have a: "High_Filter_Rate \<in> fst ` set (summary_data value_counts stats)
      \<longleftrightarrow> 3 * length stats < 10 * total_filtered stats"
    unfolding summary_metrics using r(1) by simp
  have b: "High_Failure_Rate \<in> fst ` set (summary_data value_counts stats)
      \<longleftrightarrow> 2 * length stats < 10 * total_failed stats"
    unfolding summary_metrics using r(2) by simp
  have c: "Low_Domain_Diversity \<in> fst ` set (summary_data value_counts stats)
      \<longleftrightarrow> unique_domains stats < 5 \<and> total_success stats > 10"
    unfolding summary_metrics using r(3) by simp
  show ?thesis
    using a b c
    by (simp only: count_status_sublist unique_domains_card total_success_def count_status_def)
qed

lemma sample_filtered:
  "3 * length (status_rows 4 ''Filtered - No allowed domains'' [] @ status_rows 6 ''Success'' ''a.com'')
     < 10 * length (filter (\<lambda>r. str_contains ''Filtered'' (Search_Status r))
         (status_rows 4 ''Filtered - No allowed domains'' [] @ status_rows 6 ''Success'' ''a.com''))"
  by code_simp

theorem summary_advisories_witness:
  "High_Filter_Rate \<in> fst ` set (summary_data sample_counts
     (status_rows 4 ''Filtered - No allowed domains'' [] @ status_rows 6 ''Success'' ''a.com''))"
  using summary_advisories [of sample_counts
      "status_rows 4 ''Filtered - No allowed domains'' [] @ status_rows 6 ''Success'' ''a.com''"]
    sample_filtered
  by (simp only: str_contains_sublist)

end
